theory Spec2Isabelle
  imports Main
begin

section \<open>Python values used by \<^verbatim>\<open>example/vercel_agent.py\<close>\<close>

text \<open>
  A Python \<^verbatim>\<open>str\<close> is a sequence of Unicode code points, so it is modelled as a list of
  natural numbers (the code points), not as a list of 8-bit characters. \<open>lit\<close> turns an
  ASCII literal of the source into such a list. A well-formed \<^verbatim>\<open>str\<close> holds code
  points below \<open>0x110000\<close> only (\<open>valid_str\<close>).
\<close>

type_synonym pystr = "nat list"

definition lit :: "string \<Rightarrow> pystr" where
  "lit s = map of_char s"

definition valid_str :: "pystr \<Rightarrow> bool" where
  "valid_str s = list_all (\<lambda>c. c < 0x110000) s"

text \<open>
  The exceptions the script can meet, all of them subclasses of \<^verbatim>\<open>Exception\<close>.
  \<open>RuntimeError\<close> and \<open>KeyError\<close> carry their argument; \<open>OtherError\<close> stands for
  whatever the completion endpoint or \<^verbatim>\<open>subprocess.Popen\<close> raises. \<open>RecursionError\<close>
  is what the decoder below returns when its fuel runs out.
\<close>

datatype error =
    RuntimeError pystr
  | JSONDecodeError
  | KeyError pystr
  | TypeError
  | AttributeError
  | BrokenPipeError
  | RecursionError
  | OtherError pystr

text \<open>
  The values \<^verbatim>\<open>json.loads\<close> produces. A dict is an association list in insertion
  order with distinct keys. A float is kept as the text of its literal: floating-point
  arithmetic is not modelled, and what Python computes from a float is a parameter
  (\<open>pyrt\<close> below).
\<close>

datatype json =
    JNull
  | JBool bool
  | JInt int
  | JFloat pystr
  | JStr pystr
  | JArr "json list"
  | JObj "(pystr \<times> json) list"

text \<open>
  The parts of the Python runtime the script reaches but this theory does not define:
  \<^verbatim>\<open>str(x)\<close> and \<^verbatim>\<open>json.dumps(x)\<close> of a float, whether a float is zero, and
  \<^verbatim>\<open>repr(s)\<close> of a string (which needs the Unicode database). Every definition that
  depends on them takes them as a parameter, and every theorem holds for all of them.
\<close>

record pyrt =
  float_str :: "pystr \<Rightarrow> pystr"
  float_json :: "pystr \<Rightarrow> pystr"
  float_zero :: "pystr \<Rightarrow> bool"
  str_repr :: "pystr \<Rightarrow> pystr"

subsection \<open>Integers as decimal text\<close>

fun digits :: "nat \<Rightarrow> pystr" where
  "digits n = (if n < 10 then [48 + n] else digits (n div 10) @ [48 + n mod 10])"

definition str_int :: "int \<Rightarrow> pystr" where
  "str_int i = (if i < 0 then 0x2D # digits (nat (- i)) else digits (nat i))"

subsection \<open>Dictionaries\<close>

text \<open>\<^verbatim>\<open>d[k] = v\<close>: an existing key keeps its position, a new key goes last.\<close>

fun dict_set :: "(pystr \<times> json) list \<Rightarrow> pystr \<Rightarrow> json \<Rightarrow> (pystr \<times> json) list" where
  "dict_set [] k v = [(k, v)]"
| "dict_set (p # ps) k v = (if fst p = k then (k, v) # ps else p # dict_set ps k v)"

text \<open>\<^verbatim>\<open>x[key]\<close> with a string key: only a dict can be indexed by a string.\<close>

definition py_getitem :: "json \<Rightarrow> pystr \<Rightarrow> error + json" where
  "py_getitem x key =
     (case x of
        JObj ms \<Rightarrow> (case map_of ms key of None \<Rightarrow> Inl (KeyError key) | Some v \<Rightarrow> Inr v)
      | _ \<Rightarrow> Inl TypeError)"

text \<open>\<^verbatim>\<open>x.get(key)\<close>: only a dict has the method; a missing key gives \<^verbatim>\<open>None\<close>.\<close>

definition py_get :: "json \<Rightarrow> pystr \<Rightarrow> error + json" where
  "py_get x key =
     (case x of
        JObj ms \<Rightarrow> (case map_of ms key of None \<Rightarrow> Inr JNull | Some v \<Rightarrow> Inr v)
      | _ \<Rightarrow> Inl AttributeError)"

subsection \<open>Truth value, comparison with zero, \<^verbatim>\<open>str\<close>\<close>

fun truthy :: "pyrt \<Rightarrow> json \<Rightarrow> bool" where
  "truthy rt JNull = False"
| "truthy rt (JBool b) = b"
| "truthy rt (JInt i) = (i \<noteq> 0)"
| "truthy rt (JFloat f) = (\<not> float_zero rt f)"
| "truthy rt (JStr s) = (s \<noteq> [])"
| "truthy rt (JArr xs) = (xs \<noteq> [])"
| "truthy rt (JObj ms) = (ms \<noteq> [])"

text \<open>\<^verbatim>\<open>x != 0\<close>: \<^verbatim>\<open>False == 0\<close> holds in Python; a value that is no number differs from 0.\<close>

fun ne_zero :: "pyrt \<Rightarrow> json \<Rightarrow> bool" where
  "ne_zero rt (JInt i) = (i \<noteq> 0)"
| "ne_zero rt (JBool b) = b"
| "ne_zero rt (JFloat f) = (\<not> float_zero rt f)"
| "ne_zero rt _ = True"

fun join :: "pystr \<Rightarrow> pystr list \<Rightarrow> pystr" where
  "join sep [] = []"
| "join sep [x] = x"
| "join sep (x # y # ys) = x @ sep @ join sep (y # ys)"

fun py_repr :: "pyrt \<Rightarrow> json \<Rightarrow> pystr"
  and py_repr_items :: "pyrt \<Rightarrow> (pystr \<times> json) list \<Rightarrow> pystr list"
where
  "py_repr rt JNull = lit ''None''"
| "py_repr rt (JBool b) = (if b then lit ''True'' else lit ''False'')"
| "py_repr rt (JInt i) = str_int i"
| "py_repr rt (JFloat f) = float_str rt f"
| "py_repr rt (JStr s) = str_repr rt s"
| "py_repr rt (JArr xs) = lit ''['' @ join (lit '', '') (map (py_repr rt) xs) @ lit '']''"
| "py_repr rt (JObj ms) = lit ''{'' @ join (lit '', '') (py_repr_items rt ms) @ lit ''}''"
| "py_repr_items rt [] = []"
| "py_repr_items rt ((k, v) # ms) =
     (str_repr rt k @ lit '': '' @ py_repr rt v) # py_repr_items rt ms"

text \<open>\<^verbatim>\<open>str(x)\<close>, which is what an f-string field \<^verbatim>\<open>{x}\<close> inserts.\<close>

definition py_str :: "pyrt \<Rightarrow> json \<Rightarrow> pystr" where
  "py_str rt x = (case x of JStr s \<Rightarrow> s | _ \<Rightarrow> py_repr rt x)"

section \<open>\<^verbatim>\<open>json.dumps\<close>\<close>

text \<open>
  The encoder with its defaults (\<^verbatim>\<open>ensure_ascii=True\<close>, separators \<^verbatim>\<open>", "\<close> and
  \<^verbatim>\<open>": "\<close>). In a string, the backslash, the double quote and every character outside
  \<^verbatim>\<open>' '..'~'\<close> are escaped: the short escapes of \<^verbatim>\<open>ESCAPE_DCT\<close>, else
  \<^verbatim>\<open>\uXXXX\<close>, and a surrogate pair of two such escapes for a code point from
  \<open>0x10000\<close> on.
\<close>

definition hexdigit :: "nat \<Rightarrow> nat" where
  "hexdigit d = (if d < 10 then 48 + d else 87 + d)"

definition u_escape :: "nat \<Rightarrow> pystr" where
  "u_escape n =
     [0x5C, 0x75, hexdigit (n div 4096 mod 16), hexdigit (n div 256 mod 16),
      hexdigit (n div 16 mod 16), hexdigit (n mod 16)]"

definition escape_char :: "nat \<Rightarrow> pystr" where
  "escape_char c =
     (if c = 0x5C then [0x5C, 0x5C]
      else if c = 0x22 then [0x5C, 0x22]
      else if 0x20 \<le> c \<and> c \<le> 0x7E then [c]
      else if c = 0x08 then [0x5C, 0x62]
      else if c = 0x0C then [0x5C, 0x66]
      else if c = 0x0A then [0x5C, 0x6E]
      else if c = 0x0D then [0x5C, 0x72]
      else if c = 0x09 then [0x5C, 0x74]
      else if c < 0x10000 then u_escape c
      else u_escape (0xD800 + (c - 0x10000) div 1024 mod 1024)
           @ u_escape (0xDC00 + (c - 0x10000) mod 1024))"

definition encode_basestring_ascii :: "pystr \<Rightarrow> pystr" where
  "encode_basestring_ascii s = [0x22] @ concat (map escape_char s) @ [0x22]"

fun json_dumps :: "pyrt \<Rightarrow> json \<Rightarrow> pystr"
  and json_dumps_items :: "pyrt \<Rightarrow> (pystr \<times> json) list \<Rightarrow> pystr list"
where
  "json_dumps rt JNull = lit ''null''"
| "json_dumps rt (JBool b) = (if b then lit ''true'' else lit ''false'')"
| "json_dumps rt (JInt i) = str_int i"
| "json_dumps rt (JFloat f) = float_json rt f"
| "json_dumps rt (JStr s) = encode_basestring_ascii s"
| "json_dumps rt (JArr xs) = lit ''['' @ join (lit '', '') (map (json_dumps rt) xs) @ lit '']''"
| "json_dumps rt (JObj ms) = lit ''{'' @ join (lit '', '') (json_dumps_items rt ms) @ lit ''}''"
| "json_dumps_items rt [] = []"
| "json_dumps_items rt ((k, v) # ms) =
     (encode_basestring_ascii k @ lit '': '' @ json_dumps rt v) # json_dumps_items rt ms"

section \<open>\<^verbatim>\<open>json.loads\<close>\<close>

text \<open>\<^verbatim>\<open>WHITESPACE\<close> is \<^verbatim>\<open>[ \t\n\r]*\<close>.\<close>

definition is_ws :: "nat \<Rightarrow> bool" where
  "is_ws c = (c = 0x20 \<or> c = 0x09 \<or> c = 0x0A \<or> c = 0x0D)"

definition skip_ws :: "pystr \<Rightarrow> pystr" where
  "skip_ws s = dropWhile is_ws s"

subsection \<open>Strings\<close>

definition hexval :: "nat \<Rightarrow> nat option" where
  "hexval c =
     (if 0x30 \<le> c \<and> c \<le> 0x39 then Some (c - 0x30)
      else if 0x61 \<le> c \<and> c \<le> 0x66 then Some (c - 0x57)
      else if 0x41 \<le> c \<and> c \<le> 0x46 then Some (c - 0x37)
      else None)"

text \<open>\<^verbatim>\<open>_decode_uXXXX\<close>: the four characters after the \<^verbatim>\<open>u\<close> must be hex digits.\<close>

definition decode_uXXXX :: "pystr \<Rightarrow> nat option" where
  "decode_uXXXX s =
     (case take 4 s of
        [a, b, c, d] \<Rightarrow>
          (case (hexval a, hexval b, hexval c, hexval d) of
             (Some x, Some y, Some z, Some w) \<Rightarrow> Some (((x * 16 + y) * 16 + z) * 16 + w)
           | _ \<Rightarrow> None)
      | _ \<Rightarrow> None)"

text \<open>The table \<^verbatim>\<open>BACKSLASH\<close> of the one-letter escapes.\<close>

definition BACKSLASH :: "nat \<Rightarrow> nat option" where
  "BACKSLASH e =
     (if e = 0x22 then Some 0x22
      else if e = 0x5C then Some 0x5C
      else if e = 0x2F then Some 0x2F
      else if e = 0x62 then Some 0x08
      else if e = 0x66 then Some 0x0C
      else if e = 0x6E then Some 0x0A
      else if e = 0x72 then Some 0x0D
      else if e = 0x74 then Some 0x09
      else None)"

definition cons_char :: "nat \<Rightarrow> error + pystr \<times> pystr \<Rightarrow> error + pystr \<times> pystr" where
  "cons_char c r = (case r of Inl e \<Rightarrow> Inl e | Inr (s, rest) \<Rightarrow> Inr (c # s, rest))"

text \<open>
  \<^verbatim>\<open>scanstring\<close> (strict), started after the opening quote: the string and what
  follows its closing quote. A \<^verbatim>\<open>\uXXXX\<close> escape of a high surrogate directly followed
  by a \<^verbatim>\<open>\uXXXX\<close> escape of a low surrogate is one code point. In the source the
  joined code point is \<^verbatim>\<open>0x10000 + (((uni - 0xd800) << 10) | (uni2 - 0xdc00))\<close>; the
  right operand of the bitwise or is below \<open>1024\<close>, so the or is a sum.
\<close>

fun scanstring :: "pystr \<Rightarrow> error + pystr \<times> pystr" where
  "scanstring [] = Inl JSONDecodeError"
| "scanstring (c # r) =
     (if c = 0x22 then Inr ([], r)
      else if c = 0x5C then
        (case r of
           [] \<Rightarrow> Inl JSONDecodeError
         | esc # r1 \<Rightarrow>
             if esc \<noteq> 0x75 then
               (case BACKSLASH esc of
                  None \<Rightarrow> Inl JSONDecodeError
                | Some ch \<Rightarrow> cons_char ch (scanstring r1))
             else
               (case decode_uXXXX r1 of
                  None \<Rightarrow> Inl JSONDecodeError
                | Some uni \<Rightarrow>
                    if 0xD800 \<le> uni \<and> uni \<le> 0xDBFF \<and> take 2 (drop 4 r1) = [0x5C, 0x75] then
                      (case decode_uXXXX (drop 6 r1) of
                         None \<Rightarrow> Inl JSONDecodeError
                       | Some uni2 \<Rightarrow>
                           if 0xDC00 \<le> uni2 \<and> uni2 \<le> 0xDFFF then
                             cons_char (0x10000 + ((uni - 0xD800) * 1024 + (uni2 - 0xDC00)))
                               (scanstring (drop 10 r1))
                           else cons_char uni (scanstring (drop 4 r1)))
                    else cons_char uni (scanstring (drop 4 r1))))
      else if c < 0x20 then Inl JSONDecodeError
      else cons_char c (scanstring r))"

subsection \<open>Numbers\<close>

text \<open>
  \<^verbatim>\<open>NUMBER_RE\<close> is \<^verbatim>\<open>(-?(?:0|[1-9][0-9]*))(\.[0-9]+)?([eE][-+]?[0-9]+)?\<close>:
  \<open>match_number\<close> gives the three groups and the rest of the text.
\<close>

definition is_digit :: "nat \<Rightarrow> bool" where
  "is_digit c = (0x30 \<le> c \<and> c \<le> 0x39)"

definition match_integer :: "pystr \<Rightarrow> (pystr \<times> pystr) option" where
  "match_integer s =
     (case s of
        [] \<Rightarrow> None
      | d # r \<Rightarrow>
          if d = 0x30 then Some ([d], r)
          else if is_digit d then Some (d # takeWhile is_digit r, dropWhile is_digit r)
          else None)"

definition match_frac :: "pystr \<Rightarrow> pystr \<times> pystr" where
  "match_frac s =
     (case s of
        d # r \<Rightarrow>
          if d = 0x2E \<and> takeWhile is_digit r \<noteq> []
          then (d # takeWhile is_digit r, dropWhile is_digit r)
          else ([], s)
      | [] \<Rightarrow> ([], s))"

definition match_exp :: "pystr \<Rightarrow> pystr \<times> pystr" where
  "match_exp s =
     (case s of
        e # r \<Rightarrow>
          if e = 0x65 \<or> e = 0x45 then
            (case r of
               sg # r1 \<Rightarrow>
                 if (sg = 0x2D \<or> sg = 0x2B) \<and> takeWhile is_digit r1 \<noteq> []
                 then (e # sg # takeWhile is_digit r1, dropWhile is_digit r1)
                 else if takeWhile is_digit r \<noteq> []
                 then (e # takeWhile is_digit r, dropWhile is_digit r)
                 else ([], s)
             | [] \<Rightarrow> ([], s))
          else ([], s)
      | [] \<Rightarrow> ([], s))"

definition match_number :: "pystr \<Rightarrow> (pystr \<times> pystr \<times> pystr \<times> pystr) option" where
  "match_number s =
     (case (case s of
              c # r \<Rightarrow> if c = 0x2D then map_option (\<lambda>(i, r'). (c # i, r')) (match_integer r)
                       else match_integer s
            | [] \<Rightarrow> None) of
        None \<Rightarrow> None
      | Some (integer, r1) \<Rightarrow>
          (case match_frac r1 of
             (frac, r2) \<Rightarrow>
               (case match_exp r2 of
                  (exp, r3) \<Rightarrow> Some (integer, frac, exp, r3))))"

definition parse_int :: "pystr \<Rightarrow> int" where
  "parse_int s =
     (case s of
        c # r \<Rightarrow>
          if c = 0x2D then - int (foldl (\<lambda>a d. 10 * a + (d - 0x30)) 0 r)
          else int (foldl (\<lambda>a d. 10 * a + (d - 0x30)) 0 s)
      | [] \<Rightarrow> 0)"

subsection \<open>Values\<close>

text \<open>
  \<^verbatim>\<open>scan_once\<close>, \<^verbatim>\<open>JSONArray\<close> and \<^verbatim>\<open>JSONObject\<close>. The recursion is on a
  fuel that every call uses up; \<open>json_loads\<close> starts with more than the text can use
  (\<open>json_loads_fuel\<close> below). \<open>parse_array\<close> is the loop of \<^verbatim>\<open>JSONArray\<close>, entered
  where a value must start; \<open>parse_object\<close> is the loop of \<^verbatim>\<open>JSONObject\<close>, entered
  after the opening quote of a key.
\<close>

fun scan_once :: "nat \<Rightarrow> pystr \<Rightarrow> error + json \<times> pystr"
  and parse_array :: "nat \<Rightarrow> json list \<Rightarrow> pystr \<Rightarrow> error + json \<times> pystr"
  and parse_object :: "nat \<Rightarrow> (pystr \<times> json) list \<Rightarrow> pystr \<Rightarrow> error + json \<times> pystr"
where
  "scan_once 0 s = Inl RecursionError"
| "scan_once (Suc n) s =
     (case s of
        [] \<Rightarrow> Inl JSONDecodeError
      | c # r \<Rightarrow>
          if c = 0x22 then
            (case scanstring r of
               Inl e \<Rightarrow> Inl e
             | Inr (str, r1) \<Rightarrow> Inr (JStr str, r1))
          else if c = 0x7B then
            (case skip_ws r of
               [] \<Rightarrow> Inl JSONDecodeError
             | c1 # r1 \<Rightarrow>
                 if c1 = 0x7D then Inr (JObj [], r1)
                 else if c1 = 0x22 then parse_object n [] r1
                 else Inl JSONDecodeError)
          else if c = 0x5B then
            (case skip_ws r of
               [] \<Rightarrow> Inl JSONDecodeError
             | c1 # r1 \<Rightarrow>
                 if c1 = 0x5D then Inr (JArr [], r1)
                 else parse_array n [] (c1 # r1))
          else if take 4 s = lit ''null'' then Inr (JNull, drop 4 s)
          else if take 4 s = lit ''true'' then Inr (JBool True, drop 4 s)
          else if take 5 s = lit ''false'' then Inr (JBool False, drop 5 s)
          else
            (case match_number s of
               Some (integer, frac, exp, r1) \<Rightarrow>
                 if frac \<noteq> [] \<or> exp \<noteq> [] then Inr (JFloat (integer @ frac @ exp), r1)
                 else Inr (JInt (parse_int integer), r1)
             | None \<Rightarrow>
                 if take 3 s = lit ''NaN'' then Inr (JFloat (lit ''NaN''), drop 3 s)
                 else if take 8 s = lit ''Infinity'' then Inr (JFloat (lit ''Infinity''), drop 8 s)
                 else if take 9 s = lit ''-Infinity'' then Inr (JFloat (lit ''-Infinity''), drop 9 s)
                 else Inl JSONDecodeError))"
| "parse_array 0 acc s = Inl RecursionError"
| "parse_array (Suc n) acc s =
     (case scan_once n s of
        Inl e \<Rightarrow> Inl e
      | Inr (v, r) \<Rightarrow>
          (case skip_ws r of
             [] \<Rightarrow> Inl JSONDecodeError
           | c # r1 \<Rightarrow>
               if c = 0x5D then Inr (JArr (acc @ [v]), r1)
               else if c = 0x2C then parse_array n (acc @ [v]) (skip_ws r1)
               else Inl JSONDecodeError))"
| "parse_object 0 acc s = Inl RecursionError"
| "parse_object (Suc n) acc s =
     (case scanstring s of
        Inl e \<Rightarrow> Inl e
      | Inr (key, r) \<Rightarrow>
          (case skip_ws r of
             [] \<Rightarrow> Inl JSONDecodeError
           | c # r1 \<Rightarrow>
               if c \<noteq> 0x3A then Inl JSONDecodeError
               else
                 (case scan_once n (skip_ws r1) of
                    Inl e \<Rightarrow> Inl e
                  | Inr (v, r2) \<Rightarrow>
                      (case skip_ws r2 of
                         [] \<Rightarrow> Inl JSONDecodeError
                       | c2 # r3 \<Rightarrow>
                           if c2 = 0x7D then Inr (JObj (dict_set acc key v), r3)
                           else if c2 \<noteq> 0x2C then Inl JSONDecodeError
                           else
                             (case skip_ws r3 of
                                [] \<Rightarrow> Inl JSONDecodeError
                              | c4 # r4 \<Rightarrow>
                                  if c4 = 0x22 then parse_object n (dict_set acc key v) r4
                                  else Inl JSONDecodeError)))))"

text \<open>
  \<^verbatim>\<open>json.loads(s)\<close> for a \<^verbatim>\<open>str\<close>: a leading byte order mark is refused,
  whitespace around the value is skipped, anything after it is "Extra data".
\<close>

definition json_loads :: "pystr \<Rightarrow> error + json" where
  "json_loads s =
     (if take 1 s = [0xFEFF] then Inl JSONDecodeError
      else
        (case scan_once (2 * length s + 2) (skip_ws s) of
           Inl e \<Rightarrow> Inl e
         | Inr (v, r) \<Rightarrow> if skip_ws r = [] then Inr v else Inl JSONDecodeError))"

section \<open>The child process\<close>

text \<open>
  \<^verbatim>\<open>subprocess.Popen\<close> gives the client a handle on a child with two pipes in text
  mode. The child is outside the program, so it is modelled by what the program can
  observe of it:
  \<^item> \<open>child_stdout\<close>: the text the child still writes to its standard output before it
    closes it; \<^verbatim>\<open>readline\<close> takes the next line off it and returns \<^verbatim>\<open>''\<close> when
    nothing is left;
  \<^item> \<open>child_stdin\<close>: the texts written to the child so far, oldest first;
  \<^item> \<open>accepts\<close>: how many more writes the pipe takes before it breaks
    (\<^verbatim>\<open>BrokenPipeError\<close>);
  \<^item> \<open>exits_in_time\<close>: whether \<^verbatim>\<open>wait(timeout=2)\<close> sees the child exit;
  \<^item> \<open>exited\<close>, \<open>killed\<close>: whether \<^verbatim>\<open>wait\<close> returned, whether \<^verbatim>\<open>kill\<close> was called.

  Every blocking call returns: a child that neither writes nor closes its output, and an
  endpoint that never answers, are outside this model.
\<close>

record proc =
  child_stdout :: pystr
  child_stdin :: "pystr list"
  accepts :: nat
  exits_in_time :: bool
  exited :: bool
  killed :: bool

definition readline :: "proc \<Rightarrow> pystr \<times> proc" where
  "readline p =
     (case dropWhile (\<lambda>c. c \<noteq> 0x0A) (child_stdout p) of
        [] \<Rightarrow> (child_stdout p, p\<lparr>child_stdout := []\<rparr>)
      | nl # rest \<Rightarrow>
          (takeWhile (\<lambda>c. c \<noteq> 0x0A) (child_stdout p) @ [nl], p\<lparr>child_stdout := rest\<rparr>))"

text \<open>\<^verbatim>\<open>stdin.write(text)\<close> followed by \<^verbatim>\<open>stdin.flush()\<close>.\<close>

definition write_flush :: "proc \<Rightarrow> pystr \<Rightarrow> error + proc" where
  "write_flush p text =
     (if accepts p = 0 then Inl BrokenPipeError
      else Inr (p\<lparr>child_stdin := child_stdin p @ [text], accepts := accepts p - 1\<rparr>))"

definition kill :: "proc \<Rightarrow> proc" where
  "kill p = p\<lparr>killed := True\<rparr>"

section \<open>The state of a run\<close>

text \<open>
  \<open>process\<close> is \<^verbatim>\<open>self.process\<close> of the one \<^verbatim>\<open>AgentVMClient\<close>. The other fields
  record what the run does to the world: \<open>released\<close> holds every child whose handle
  \<^verbatim>\<open>stop\<close> has dropped, in its last state; \<open>stderr_log\<close> and \<open>stdout_log\<close>
  hold one entry for each \<^verbatim>\<open>print\<close>; \<open>messages\<close> is the conversation of
  \<^verbatim>\<open>run_agent\<close>; \<open>api_calls\<close> counts the calls of
  \<^verbatim>\<open>client.chat.completions.create\<close>.
\<close>

record tool_call =
  tc_id :: pystr
  tc_name :: pystr
  tc_arguments :: pystr

text \<open>The message of a completion: \<^verbatim>\<open>content\<close> and \<^verbatim>\<open>tool_calls\<close> may be \<^verbatim>\<open>None\<close>.\<close>

record message =
  content :: "pystr option"
  tool_calls :: "tool_call list option"

datatype msg =
    User pystr
  | Assistant message
  | Tool pystr pystr json

text \<open>
  A line on standard error: a text, or \<^verbatim>\<open>Agent Error: {e}\<close> for the exception
  \<open>e\<close>.
\<close>

datatype err_line = Line pystr | AgentError error

record world =
  process :: "proc option"
  released :: "proc list"
  stderr_log :: "err_line list"
  stdout_log :: "pystr list"
  messages :: "msg list"
  api_calls :: nat

definition eprint :: "err_line \<Rightarrow> world \<Rightarrow> world" where
  "eprint l w = w\<lparr>stderr_log := stderr_log w @ [l]\<rparr>"

definition print :: "pystr \<Rightarrow> world \<Rightarrow> world" where
  "print l w = w\<lparr>stdout_log := stdout_log w @ [l]\<rparr>"

section \<open>\<^verbatim>\<open>AgentVMClient\<close>\<close>

subsection \<open>\<^verbatim>\<open>start\<close>\<close>

text \<open>
  \<^verbatim>\<open>str.strip()\<close> removes the characters for which \<^verbatim>\<open>str.isspace\<close> holds from both
  ends.
\<close>

definition isspace :: "nat \<Rightarrow> bool" where
  "isspace c =
     ((0x09 \<le> c \<and> c \<le> 0x0D) \<or> (0x1C \<le> c \<and> c \<le> 0x20) \<or> c = 0x85 \<or> c = 0xA0
      \<or> c = 0x1680 \<or> (0x2000 \<le> c \<and> c \<le> 0x200A) \<or> c = 0x2028 \<or> c = 0x2029
      \<or> c = 0x202F \<or> c = 0x205F \<or> c = 0x3000)"

definition strip :: "pystr \<Rightarrow> pystr" where
  "strip s = rev (dropWhile isspace (rev (dropWhile isspace s)))"

text \<open>
  The loop that waits for the \<^verbatim>\<open>READY\<close> line: \<open>True\<close> when the line came,
  \<open>False\<close> when the output ended first. Each turn takes a non-empty line off the
  child's output, so the loop ends.
\<close>

function wait_ready :: "proc \<Rightarrow> bool \<times> proc" where
  "wait_ready p =
     (case readline p of
        (line, p') \<Rightarrow>
          if line = [] then (False, p')
          else if strip line = lit ''READY'' then (True, p')
          else wait_ready p')"
  by pat_completeness auto

lemma readline_shorter:
  assumes "readline p = (line, p')" and "line \<noteq> []"
  shows "length (child_stdout p') < length (child_stdout p)"
proof (cases "dropWhile (\<lambda>c. c \<noteq> 0x0A) (child_stdout p)")
  case Nil
  with assms show ?thesis by (auto simp: readline_def)
next
  case (Cons nl rest)
  have "length (dropWhile (\<lambda>c. c \<noteq> 0x0A) (child_stdout p)) \<le> length (child_stdout p)"
    by (rule length_dropWhile_le)
  with Cons assms show ?thesis by (auto simp: readline_def)
qed

termination wait_ready
  by (relation "measure (\<lambda>p. length (child_stdout p))")
    (auto intro: readline_shorter [OF sym])

declare wait_ready.simps [simp del]

text \<open>
  \<open>popen\<close> is what \<^verbatim>\<open>subprocess.Popen\<close> does in this run: it raises, or it gives
  the new child.
\<close>

definition start :: "error + proc \<Rightarrow> world \<Rightarrow> (error + unit) \<times> world" where
  "start popen w =
     (let w1 = eprint (Line (lit ''Booting VM...'')) w in
      case popen of
        Inl e \<Rightarrow> (Inl e, w1)
      | Inr p \<Rightarrow>
          (case wait_ready p of
             (ready, p') \<Rightarrow>
               if \<not> ready
               then (Inl (RuntimeError (lit ''VM process exited unexpectedly'')),
                     w1\<lparr>process := Some p'\<rparr>)
               else (Inr (), eprint (Line (lit ''VM Ready.'')) (w1\<lparr>process := Some p'\<rparr>))))"

subsection \<open>\<^verbatim>\<open>exec\<close>\<close>

definition exec_request :: "pyrt \<Rightarrow> json \<Rightarrow> pystr" where
  "exec_request rt command =
     json_dumps rt (JObj [(lit ''cmd'', JStr (lit ''exec'')), (lit ''command'', command)]) @ [0x0A]"

definition exec :: "pyrt \<Rightarrow> json \<Rightarrow> world \<Rightarrow> (error + json) \<times> world" where
  "exec rt command w =
     (case process w of
        None \<Rightarrow> (Inl (RuntimeError (lit ''VM not started'')), w)
      | Some p \<Rightarrow>
          (case write_flush p (exec_request rt command) of
             Inl e \<Rightarrow> (Inl e, w)
           | Inr p1 \<Rightarrow>
               (case readline p1 of
                  (resp_line, p2) \<Rightarrow>
                    let w2 = w\<lparr>process := Some p2\<rparr> in
                    if resp_line = [] then (Inl (RuntimeError (lit ''VM closed connection'')), w2)
                    else
                      (case json_loads resp_line of
                         Inl e \<Rightarrow> (Inl e, w2)
                       | Inr resp \<Rightarrow>
                           (case py_get resp (lit ''status'') of
                              Inl e \<Rightarrow> (Inl e, w2)
                            | Inr status \<Rightarrow>
                                if status = JStr (lit ''ok'') then
                                  (case py_getitem resp (lit ''result'') of
                                     Inl e \<Rightarrow> (Inl e, w2)
                                   | Inr result \<Rightarrow> (Inr result, w2))
                                else
                                  (case py_get resp (lit ''error'') of
                                     Inl e \<Rightarrow> (Inl e, w2)
                                   | Inr err \<Rightarrow>
                                       (Inl (RuntimeError (lit ''VM Error: '' @ py_str rt err)),
                                        w2)))))))"

subsection \<open>\<^verbatim>\<open>stop\<close>\<close>

definition stop_request :: pystr where
  "stop_request = lit ''{'' @ [0x22] @ lit ''cmd'' @ [0x22] @ lit '': '' @ [0x22] @ lit ''stop''
                  @ [0x22] @ lit ''}'' @ [0x0A]"

text \<open>
  The \<^verbatim>\<open>try\<close> block of \<^verbatim>\<open>stop\<close>: a write that fails and a wait that times out both
  end in the bare \<^verbatim>\<open>except\<close>, which kills the child.
\<close>

definition shutdown :: "proc \<Rightarrow> proc" where
  "shutdown p =
     (case write_flush p stop_request of
        Inl e \<Rightarrow> kill p
      | Inr p1 \<Rightarrow> if exits_in_time p1 then p1\<lparr>exited := True\<rparr> else kill p1)"

definition stop :: "world \<Rightarrow> world" where
  "stop w =
     (case process w of
        None \<Rightarrow> w
      | Some p \<Rightarrow> w\<lparr>process := None, released := released w @ [shutdown p]\<rparr>)"

section \<open>\<^verbatim>\<open>run_agent\<close>\<close>

subsection \<open>One tool call\<close>

text \<open>
  The content of the tool message (lines 133 to 136). The f-string reads
  \<^verbatim>\<open>cmd_res['exitCode']\<close> and \<^verbatim>\<open>cmd_res['stderr']\<close>, and
  \<^verbatim>\<open>cmd_res['stdout']\<close> only when the standard error is falsy.
\<close>

definition tool_content :: "pyrt \<Rightarrow> json \<Rightarrow> error + json" where
  "tool_content rt cmd_res =
     (case py_getitem cmd_res (lit ''exitCode'') of
        Inl e \<Rightarrow> Inl e
      | Inr code \<Rightarrow>
          if ne_zero rt code then
            (case py_getitem cmd_res (lit ''stderr'') of
               Inl e \<Rightarrow> Inl e
             | Inr err \<Rightarrow>
                 if truthy rt err
                 then Inr (JStr (lit ''Error (Exit '' @ py_str rt code @ lit ''): '' @ py_str rt err))
                 else
                   (case py_getitem cmd_res (lit ''stdout'') of
                      Inl e \<Rightarrow> Inl e
                    | Inr out \<Rightarrow>
                        Inr (JStr (lit ''Error (Exit '' @ py_str rt code @ lit ''): ''
                                   @ py_str rt out))))
          else py_getitem cmd_res (lit ''stdout''))"

text \<open>The body of the \<^verbatim>\<open>for\<close> loop (lines 125 to 143).\<close>

definition tool_call_step :: "pyrt \<Rightarrow> tool_call \<Rightarrow> world \<Rightarrow> (error + unit) \<times> world" where
  "tool_call_step rt tc w =
     (if tc_name tc = lit ''execute_shell_command'' then
        (case json_loads (tc_arguments tc) of
           Inl e \<Rightarrow> (Inl e, w)
         | Inr args \<Rightarrow>
             (case py_getitem args (lit ''command'') of
                Inl e \<Rightarrow> (Inl e, w)
              | Inr command \<Rightarrow>
                  (case exec rt command
                          (eprint (Line (lit ''[Tool] Executing: '' @ py_str rt command)) w) of
                     (Inl e, w1) \<Rightarrow> (Inl e, w1)
                   | (Inr cmd_res, w1) \<Rightarrow>
                       (case tool_content rt cmd_res of
                          Inl e \<Rightarrow> (Inl e, w1)
                        | Inr text \<Rightarrow>
                            (Inr (),
                             w1\<lparr>messages := messages w1
                                   @ [Tool (tc_id tc) (lit ''execute_shell_command'') text]\<rparr>)))))
      else (Inr (), w))"

fun for_tool_calls :: "pyrt \<Rightarrow> tool_call list \<Rightarrow> world \<Rightarrow> (error + unit) \<times> world" where
  "for_tool_calls rt [] w = (Inr (), w)"
| "for_tool_calls rt (tc # tcs) w =
     (case tool_call_step rt tc w of
        (Inl e, w1) \<Rightarrow> (Inl e, w1)
      | (Inr u, w1) \<Rightarrow> for_tool_calls rt tcs w1)"

subsection \<open>The loop\<close>

definition MAX_STEPS :: nat where
  "MAX_STEPS = 5"

text \<open>
  The completion endpoint is a parameter: \<open>create k ms\<close> is what the call number \<open>k\<close>
  (from 0) of \<^verbatim>\<open>client.chat.completions.create\<close> does when it is sent the messages
  \<open>ms\<close>: it raises, or it gives \<^verbatim>\<open>response.choices[0].message\<close>.
\<close>

type_synonym endpoint = "nat \<Rightarrow> msg list \<Rightarrow> error + message"

text \<open>\<^verbatim>\<open>print(message.content)\<close>: the content may be \<^verbatim>\<open>None\<close>.\<close>

definition final_answer :: "message \<Rightarrow> world \<Rightarrow> world" where
  "final_answer m w =
     print (case content m of None \<Rightarrow> lit ''None'' | Some text \<Rightarrow> text)
       (print (0x0A # lit ''Agent Response:'') w)"

function agent_loop :: "pyrt \<Rightarrow> endpoint \<Rightarrow> nat \<Rightarrow> world \<Rightarrow> (error + unit) \<times> world" where
  "agent_loop rt create step w =
     (if step < MAX_STEPS then
        (case create (api_calls w) (messages w) of
           Inl e \<Rightarrow> (Inl e, w\<lparr>api_calls := api_calls w + 1\<rparr>)
         | Inr m \<Rightarrow>
             (case tool_calls m of
                None \<Rightarrow>
                  (Inr (), final_answer m
                     (w\<lparr>api_calls := api_calls w + 1, messages := messages w @ [Assistant m]\<rparr>))
              | Some [] \<Rightarrow>
                  (Inr (), final_answer m
                     (w\<lparr>api_calls := api_calls w + 1, messages := messages w @ [Assistant m]\<rparr>))
              | Some (tc # tcs) \<Rightarrow>
                  (case for_tool_calls rt (tc # tcs)
                          (w\<lparr>api_calls := api_calls w + 1,
                             messages := messages w @ [Assistant m]\<rparr>) of
                     (Inl e, w1) \<Rightarrow> (Inl e, w1)
                   | (Inr u, w1) \<Rightarrow> agent_loop rt create (step + 1) w1)))
      else (Inr (), w))"
  by pat_completeness auto

termination agent_loop
  by (relation "measure (\<lambda>(rt, create, step, w). MAX_STEPS - step)") auto

declare agent_loop.simps [simp del]

subsection \<open>The run\<close>

definition user_prompt :: pystr where
  "user_prompt =
     lit ''Calculate the 10th Fibonacci number using Python and tell me the result.''"

text \<open>\<^verbatim>\<open>if api_key\<close>: a key that is missing or empty is no key.\<close>

definition has_key :: "pystr option \<Rightarrow> bool" where
  "has_key api_key = (case api_key of None \<Rightarrow> False | Some k \<Rightarrow> k \<noteq> [])"

text \<open>The \<^verbatim>\<open>try\<close> block of \<^verbatim>\<open>run_agent\<close> (lines 72 to 149).\<close>

definition try_block ::
  "pyrt \<Rightarrow> error + proc \<Rightarrow> pystr option \<Rightarrow> endpoint \<Rightarrow> world \<Rightarrow> (error + unit) \<times> world"
where
  "try_block rt popen api_key create w =
     (case start popen w of
        (Inl e, w1) \<Rightarrow> (Inl e, w1)
      | (Inr u, w1) \<Rightarrow>
          if has_key api_key then
            agent_loop rt create 0 (w1\<lparr>messages := [User user_prompt]\<rparr>)
          else
            (case exec rt (JStr (lit ''ls -F''))
                    (print (lit ''User: List files in current directory.'')
                       (print (0x0A # lit ''[Simulated Agent Interaction]'') w1)) of
               (Inl e, w2) \<Rightarrow> (Inl e, w2)
             | (Inr res, w2) \<Rightarrow>
                 (Inr (), print (lit ''Tool Output: '' @ json_dumps rt res) w2)))"

definition world0 :: world where
  "world0 =
     \<lparr>process = None, released = [], stderr_log = [], stdout_log = [], messages = [],
      api_calls = 0\<rparr>"

text \<open>
  \<^verbatim>\<open>run_agent\<close>: the \<^verbatim>\<open>try\<close> block, the \<^verbatim>\<open>except Exception\<close> clause that prints
  the error, and the \<^verbatim>\<open>finally\<close> clause that stops the client.
\<close>

definition run_agent :: "pyrt \<Rightarrow> error + proc \<Rightarrow> pystr option \<Rightarrow> endpoint \<Rightarrow> world" where
  "run_agent rt popen api_key create =
     (case try_block rt popen api_key create world0 of
        (Inl e, w) \<Rightarrow> stop (eprint (AgentError e) w)
      | (Inr u, w) \<Rightarrow> stop w)"

section \<open>Observations and example inputs\<close>

text \<open>Every text the run has written to a child, released children first.\<close>

definition sent :: "world \<Rightarrow> pystr list" where
  "sent w =
     concat (map child_stdin (released w))
     @ (case process w of None \<Rightarrow> [] | Some p \<Rightarrow> child_stdin p)"

text \<open>
  A runtime for the examples: a float prints as its literal and is never zero, and
  \<^verbatim>\<open>repr\<close> of a string puts it between single quotes. None of the examples reaches
  these functions.
\<close>

definition rt0 :: pyrt where
  "rt0 =
     \<lparr>float_str = (\<lambda>f. f), float_json = (\<lambda>f. f), float_zero = (\<lambda>f. False),
      str_repr = (\<lambda>s. [0x27] @ s @ [0x27])\<rparr>"

text \<open>A child that has been written nothing yet and will write \<open>out\<close>.\<close>

definition fresh_child :: "pystr \<Rightarrow> proc" where
  "fresh_child out =
     \<lparr>child_stdout = out, child_stdin = [], accepts = 100, exits_in_time = True,
      exited = False, killed = False\<rparr>"

text \<open>What one \<^verbatim>\<open>exec\<close> does to the child: the request if the pipe takes it, and then one line read.\<close>

definition after_exec :: "pyrt \<Rightarrow> json \<Rightarrow> proc \<Rightarrow> proc" where
  "after_exec rt command p =
     (case write_flush p (exec_request rt command) of
        Inl e \<Rightarrow> p
      | Inr p1 \<Rightarrow> snd (readline p1))"

text \<open>The lines the \<^verbatim>\<open>except\<close> clause of \<^verbatim>\<open>run_agent\<close> prints.\<close>

definition is_agent_error :: "err_line \<Rightarrow> bool" where
  "is_agent_error l = (case l of AgentError e \<Rightarrow> True | Line t \<Rightarrow> False)"

text \<open>
  What the steps of the \<^verbatim>\<open>try\<close> block never change: the released children, the
  \<^verbatim>\<open>Agent Error\<close> lines, and whether the client holds a process.
\<close>

definition same_frame :: "world \<Rightarrow> world \<Rightarrow> bool" where
  "same_frame w w1 =
     (released w1 = released w
      \<and> filter is_agent_error (stderr_log w1) = filter is_agent_error (stderr_log w)
      \<and> (process w1 = None) = (process w = None))"




text \<open>
  Surrogates: a code point in \<open>0xD800..0xDBFF\<close> is a high surrogate, one in
  \<open>0xDC00..0xDFFF\<close> a low surrogate. Python strings may hold them;
  \<open>no_surrogate_pair\<close> says that no high surrogate is directly followed by a low one.
\<close>

definition is_high :: "nat \<Rightarrow> bool" where
  "is_high c = (0xD800 \<le> c \<and> c \<le> 0xDBFF)"

definition is_low :: "nat \<Rightarrow> bool" where
  "is_low c = (0xDC00 \<le> c \<and> c \<le> 0xDFFF)"

fun no_surrogate_pair :: "pystr \<Rightarrow> bool" where
  "no_surrogate_pair [] = True"
| "no_surrogate_pair [c] = True"
| "no_surrogate_pair (c # d # r) = (\<not> (is_high c \<and> is_low d) \<and> no_surrogate_pair (d # r))"

section \<open>Evaluating the decoder\<close>

text \<open>
  The equations of the decoder for a fuel that is a numeral, so that the simplifier runs
  the decoder on a concrete text.
\<close>

lemmas scan_once_numeral =
  scan_once.simps(2) [of "pred_numeral k" for k, folded numeral_eq_Suc]
  parse_array.simps(2) [of "pred_numeral k" for k, folded numeral_eq_Suc]
  parse_object.simps(2) [of "pred_numeral k" for k, folded numeral_eq_Suc]

lemmas json_eval =
  json_loads_def lit_def skip_ws_def is_ws_def scan_once_numeral
  match_number_def match_integer_def match_frac_def match_exp_def is_digit_def parse_int_def
  cons_char_def BACKSLASH_def decode_uXXXX_def hexval_def

section \<open>What \<^verbatim>\<open>exec\<close> makes of a response line\<close>

lemma readline_line:
  assumes "child_stdout p = line @ 0x0A # rest" and "0x0A \<notin> set line"
  shows "readline p = (line @ [0x0A], p\<lparr>child_stdout := rest\<rparr>)"
proof -
  have "\<And>x. x \<in> set line \<Longrightarrow> x \<noteq> 0x0A"
    using assms(2) by auto
  then have d: "dropWhile (\<lambda>c. c \<noteq> 0x0A) (line @ 0x0A # rest) = 0x0A # rest"
    and t: "takeWhile (\<lambda>c. c \<noteq> 0x0A) (line @ 0x0A # rest) = line"
    by (simp_all add: dropWhile_append2 takeWhile_append2)
  show ?thesis
    by (simp add: readline_def assms(1) d t)
qed




section \<open>The client before \<^verbatim>\<open>start\<close> and after \<^verbatim>\<open>stop\<close>\<close>



text \<open>
  C7. \<^verbatim>\<open>stop\<close> without a process changes nothing; a second \<^verbatim>\<open>stop\<close> right after
  the first changes nothing either, so it writes nothing to any child; and one
  \<^verbatim>\<open>stop\<close> writes the stop request at most once. \<open>stop\<close> is a total function of the
  state: the bare \<^verbatim>\<open>except\<close> leaves it no way to raise.
\<close>

theorem stop_idempotent:
  "(process w = None \<longrightarrow> stop w = w)
   \<and> stop (stop w) = stop w
   \<and> sent (stop (stop w)) = sent (stop w)
   \<and> count_list (sent (stop w)) stop_request \<le> count_list (sent w) stop_request + 1"
proof -
  have none: "process w = None \<longrightarrow> stop w = w"
    by (simp add: stop_def)
  have twice: "stop (stop w) = stop w"
    by (simp add: stop_def split: option.splits)
  have once: "count_list (sent (stop w)) stop_request \<le> count_list (sent w) stop_request + 1"
    by (auto simp: stop_def sent_def shutdown_def write_flush_def kill_def count_list_append
        split: option.splits)
  from none twice once show ?thesis by simp
qed

theorem stop_idempotent_witness:
  "stop world0 = world0
   \<and> stop (stop (world0\<lparr>process := Some (fresh_child [])\<rparr>))
       = stop (world0\<lparr>process := Some (fresh_child [])\<rparr>)
   \<and> sent (stop (stop (world0\<lparr>process := Some (fresh_child [])\<rparr>))) = [stop_request]"
  using stop_idempotent [of world0]
    stop_idempotent [of "world0\<lparr>process := Some (fresh_child [])\<rparr>"]
  by (simp add: world0_def stop_def sent_def shutdown_def write_flush_def fresh_child_def)

section \<open>The tool loop\<close>

text \<open>
  C2. For a result with an integer exit code and strings as standard output and standard
  error: when the exit code is not zero, the content of the tool message is
  \<^verbatim>\<open>Error (Exit <exitCode>): \<close> followed by the standard error if that is not empty and
  by the standard output otherwise; when the exit code is zero, it is the standard
  output as it is.
\<close>

theorem tool_content_format:
  assumes "map_of ms (lit ''exitCode'') = Some (JInt code)"
    and "map_of ms (lit ''stderr'') = Some (JStr err)"
    and "map_of ms (lit ''stdout'') = Some (JStr out)"
  shows "tool_content rt (JObj ms) =
           Inr (JStr (if code \<noteq> 0
                      then lit ''Error (Exit '' @ str_int code @ lit ''): ''
                           @ (if err \<noteq> [] then err else out)
                      else out))"
  using assms by (simp add: tool_content_def py_getitem_def py_str_def)

theorem tool_content_format_witness:
  "tool_content rt0
     (JObj [(lit ''stdout'', JStr (lit ''out'')), (lit ''stderr'', JStr (lit ''err'')),
            (lit ''exitCode'', JInt 2)])
   = Inr (JStr (lit ''Error (Exit 2): err''))
   \<and> tool_content rt0
       (JObj [(lit ''stdout'', JStr (lit ''out'')), (lit ''stderr'', JStr []),
              (lit ''exitCode'', JInt 2)])
     = Inr (JStr (lit ''Error (Exit 2): out''))
   \<and> tool_content rt0
       (JObj [(lit ''stdout'', JStr (lit ''out'')), (lit ''stderr'', JStr (lit ''err'')),
              (lit ''exitCode'', JInt 0)])
     = Inr (JStr (lit ''out''))"
  using
    tool_content_format [of "[(lit ''stdout'', JStr (lit ''out'')),
        (lit ''stderr'', JStr (lit ''err'')), (lit ''exitCode'', JInt 2)]" 2 "lit ''err''"
      "lit ''out''" rt0]
    tool_content_format [of "[(lit ''stdout'', JStr (lit ''out'')),
        (lit ''stderr'', JStr []), (lit ''exitCode'', JInt 2)]" 2 "[]" "lit ''out''" rt0]
    tool_content_format [of "[(lit ''stdout'', JStr (lit ''out'')),
        (lit ''stderr'', JStr (lit ''err'')), (lit ''exitCode'', JInt 0)]" 0 "lit ''err''"
      "lit ''out''" rt0]
  by (simp add: lit_def str_int_def)

text \<open>
  C9. A tool call whose function name is not \<^verbatim>\<open>execute_shell_command\<close> leaves the
  whole state as it is: no text goes to the child, no message joins the conversation.
  So the loop over the tool calls of a response does exactly what it does on the calls
  that name \<^verbatim>\<open>execute_shell_command\<close>.
\<close>

theorem tool_call_other_name:
  "(tc_name tc \<noteq> lit ''execute_shell_command'' \<longrightarrow> tool_call_step rt tc w = (Inr (), w))
   \<and> for_tool_calls rt tcs w =
       for_tool_calls rt (filter (\<lambda>tc. tc_name tc = lit ''execute_shell_command'') tcs) w"
proof -
  have step: "tool_call_step rt tc w = (Inr (), w)"
    if "tc_name tc \<noteq> lit ''execute_shell_command''" for tc w
    using that by (simp add: tool_call_step_def)
  have "for_tool_calls rt tcs w =
       for_tool_calls rt (filter (\<lambda>tc. tc_name tc = lit ''execute_shell_command'') tcs) w"
  proof (induction tcs arbitrary: w)
    case Nil
    show ?case by simp
  next
    case (Cons tc tcs)
    show ?case
    proof (cases "tc_name tc = lit ''execute_shell_command''")
      case True
      then show ?thesis using Cons.IH by (simp split: prod.splits sum.splits)
    next
      case False
      then show ?thesis using Cons.IH step by simp
    qed
  qed
  with step show ?thesis by blast
qed

theorem tool_call_other_name_witness:
  "tool_call_step rt0
     \<lparr>tc_id = lit ''call_1'', tc_name = lit ''get_weather'', tc_arguments = lit ''{}''\<rparr>
     (world0\<lparr>process := Some (fresh_child [])\<rparr>)
   = (Inr (), world0\<lparr>process := Some (fresh_child [])\<rparr>)
   \<and> for_tool_calls rt0
       [\<lparr>tc_id = lit ''call_1'', tc_name = lit ''get_weather'', tc_arguments = lit ''{}''\<rparr>]
       (world0\<lparr>process := Some (fresh_child [])\<rparr>)
     = (Inr (), world0\<lparr>process := Some (fresh_child [])\<rparr>)"
  using tool_call_other_name [of
      "\<lparr>tc_id = lit ''call_1'', tc_name = lit ''get_weather'', tc_arguments = lit ''{}''\<rparr>"
      rt0 "world0\<lparr>process := Some (fresh_child [])\<rparr>"
      "[\<lparr>tc_id = lit ''call_1'', tc_name = lit ''get_weather'', tc_arguments = lit ''{}''\<rparr>]"]
  by (simp add: lit_def)

section \<open>A response line that is no JSON\<close>

text \<open>
  C10. The child answers \<^verbatim>\<open>oops\<close>: the line is not empty and \<^verbatim>\<open>json.loads\<close> refuses
  it, so \<^verbatim>\<open>exec\<close> raises the decoder's \<^verbatim>\<open>JSONDecodeError\<close>, which is none of the
  \<^verbatim>\<open>RuntimeError\<close>s the client raises itself.
\<close>

theorem exec_malformed_line:
  "lit ''oops'' @ [0x0A] \<noteq> []
   \<and> json_loads (lit ''oops'' @ [0x0A]) = Inl JSONDecodeError
   \<and> exec rt0 (JStr (lit ''ls -F''))
       (world0\<lparr>process := Some (fresh_child (lit ''oops'' @ [0x0A]))\<rparr>)
     = (Inl JSONDecodeError,
        world0\<lparr>process := Some ((fresh_child [])
          \<lparr>child_stdin := [exec_request rt0 (JStr (lit ''ls -F''))], accepts := 99\<rparr>)\<rparr>)
   \<and> (\<forall>text. JSONDecodeError \<noteq> RuntimeError text)"
  by (simp add: exec_def world0_def fresh_child_def write_flush_def readline_def json_eval)

section \<open>What the steps of a run leave unchanged\<close>

lemma exec_world:
  "snd (exec rt command w) =
     (case process w of
        None \<Rightarrow> w
      | Some p \<Rightarrow> w\<lparr>process := Some (after_exec rt command p)\<rparr>)"
proof (cases "process w")
  case None
  then show ?thesis by (simp add: exec_def)
next
  case (Some p)
  show ?thesis
  proof (cases "write_flush p (exec_request rt command)")
    case (Inl e)
    then show ?thesis using Some by (simp add: exec_def after_exec_def)
  next
    case (Inr p1)
    obtain l p2 where r: "readline p1 = (l, p2)" by (cases "readline p1")
    show ?thesis using Some Inr r
      by (simp add: exec_def after_exec_def Let_def split: sum.splits)
  qed
qed

lemma readline_frame:
  "child_stdin (snd (readline p)) = child_stdin p"
  "accepts (snd (readline p)) = accepts p"
  "exits_in_time (snd (readline p)) = exits_in_time p"
  by (simp_all add: readline_def split: list.splits)

lemma after_exec_frame:
  "child_stdin (after_exec rt c p) = child_stdin p @ (if accepts p = 0 then [] else [exec_request rt c])"
  "accepts (after_exec rt c p) = accepts p - 1"
  "exits_in_time (after_exec rt c p) = exits_in_time p"
  by (simp_all add: after_exec_def write_flush_def readline_frame)


lemma same_frame_refl: "same_frame w w"
  by (simp add: same_frame_def)

lemma same_frame_trans: "same_frame w w1 \<Longrightarrow> same_frame w1 w2 \<Longrightarrow> same_frame w w2"
  by (simp add: same_frame_def)

lemma exec_frame:
  assumes "exec rt c w = (r, w1)"
  shows "same_frame w w1" and "api_calls w1 = api_calls w" and "stdout_log w1 = stdout_log w"
    and "messages w1 = messages w" and "stderr_log w1 = stderr_log w"
proof -
  have "w1 = snd (exec rt c w)" using assms by simp
  then have w1: "w1 = (case process w of None \<Rightarrow> w
      | Some p \<Rightarrow> w\<lparr>process := Some (after_exec rt c p)\<rparr>)"
    by (simp only: exec_world)
  show "same_frame w w1" and "api_calls w1 = api_calls w" and "stdout_log w1 = stdout_log w"
    and "messages w1 = messages w" and "stderr_log w1 = stderr_log w"
    by (simp_all add: w1 same_frame_def split: option.splits)
qed

lemma tool_call_step_frame:
  assumes "tool_call_step rt tc w = (r, w1)"
  shows "same_frame w w1 \<and> api_calls w1 = api_calls w"
proof (cases "tc_name tc = lit ''execute_shell_command''")
  case False
  with assms show ?thesis by (simp add: tool_call_step_def same_frame_def)
next
  case True
  show ?thesis
  proof (cases "json_loads (tc_arguments tc)")
    case (Inl e)
    with assms True show ?thesis by (simp add: tool_call_step_def same_frame_def)
  next
    case args: (Inr args)
    show ?thesis
    proof (cases "py_getitem args (lit ''command'')")
      case (Inl e)
      with assms True args show ?thesis by (simp add: tool_call_step_def same_frame_def)
    next
      case (Inr command)
      let ?w = "eprint (Line (lit ''[Tool] Executing: '' @ py_str rt command)) w"
      obtain r2 w2 where e: "exec rt command ?w = (r2, w2)" by (cases "exec rt command ?w")
      have f: "same_frame ?w w2" "api_calls w2 = api_calls ?w"
        using exec_frame [OF e] by simp_all
      have g: "same_frame w ?w" "api_calls ?w = api_calls w"
        by (simp_all add: same_frame_def eprint_def is_agent_error_def)
      have h: "same_frame w w2" using g(1) f(1) by (rule same_frame_trans)
      have "w1 = w2 \<or> (\<exists>m. w1 = w2\<lparr>messages := m\<rparr>)"
        using assms True args Inr e
        by (auto simp: tool_call_step_def split: sum.splits)
      then show ?thesis using h f(2) g(2) by (auto simp: same_frame_def)
    qed
  qed
qed

lemma for_tool_calls_frame:
  "for_tool_calls rt tcs w = (r, w1) \<Longrightarrow> same_frame w w1 \<and> api_calls w1 = api_calls w"
proof (induction tcs arbitrary: w)
  case Nil
  then show ?case by (simp add: same_frame_def)
next
  case (Cons tc tcs)
  obtain r2 w2 where s: "tool_call_step rt tc w = (r2, w2)" by (cases "tool_call_step rt tc w")
  note f = tool_call_step_frame [OF s]
  show ?case
  proof (cases r2)
    case (Inl e)
    with Cons.prems s f show ?thesis by simp
  next
    case (Inr u)
    with Cons.prems s have "for_tool_calls rt tcs w2 = (r, w1)" by simp
    from Cons.IH [OF this] f show ?thesis by (auto intro: same_frame_trans)
  qed
qed

lemma agent_loop_frame:
  "agent_loop rt create step w = (r, w1) \<Longrightarrow>
     same_frame w w1 \<and> api_calls w1 \<le> api_calls w + (MAX_STEPS - step)"
proof (induction rt create step w rule: agent_loop.induct)
  case (1 rt create step w)
  show ?case
  proof (cases "step < MAX_STEPS")
    case False
    with "1.prems" show ?thesis
      by (subst (asm) agent_loop.simps) (simp add: same_frame_def)
  next
    case lt: True
    show ?thesis
    proof (cases "create (api_calls w) (messages w)")
      case (Inl e)
      with "1.prems" lt show ?thesis
        by (subst (asm) agent_loop.simps) (auto simp: same_frame_def)
    next
      case m: (Inr m)
      let ?w = "w\<lparr>api_calls := api_calls w + 1, messages := messages w @ [Assistant m]\<rparr>"
      have fw: "same_frame w ?w" by (simp add: same_frame_def)
      have fin: "same_frame w (final_answer m ?w)"
        "api_calls (final_answer m ?w) = api_calls w + 1"
        by (simp_all add: same_frame_def final_answer_def print_def)
      show ?thesis
      proof (cases "tool_calls m")
        case None
        with "1.prems" lt m fin show ?thesis
          by (subst (asm) agent_loop.simps) auto
      next
        case (Some tcs)
        show ?thesis
        proof (cases tcs)
          case Nil
          with "1.prems" lt m fin Some show ?thesis
            by (subst (asm) agent_loop.simps) auto
        next
          case (Cons tc tcs')
          obtain r2 w2 where f: "for_tool_calls rt (tc # tcs') ?w = (r2, w2)"
            by (cases "for_tool_calls rt (tc # tcs') ?w")
          have ff: "same_frame ?w w2" "api_calls w2 = api_calls w + 1"
            using for_tool_calls_frame [OF f] by simp_all
          have fw2: "same_frame w w2" using fw ff(1) by (rule same_frame_trans)
          show ?thesis
          proof (cases r2)
            case (Inl e)
            with "1.prems" lt m Some Cons f fw2 ff(2) show ?thesis
              by (subst (asm) agent_loop.simps) auto
          next
            case (Inr u)
            with "1.prems" lt m Some Cons f
            have rec: "agent_loop rt create (step + 1) w2 = (r, w1)"
              by (subst (asm) agent_loop.simps) simp
            have "same_frame w2 w1 \<and> api_calls w1 \<le> api_calls w2 + (MAX_STEPS - (step + 1))"
              using "1.IH" [OF lt m Some Cons f [symmetric] Inr rec] .
            then show ?thesis using fw2 ff(2) lt
              by (auto intro: same_frame_trans)
          qed
        qed
      qed
    qed
  qed
qed


lemma start_frame:
  assumes "start popen w = (r, w1)"
  shows "released w1 = released w"
    and "filter is_agent_error (stderr_log w1) = filter is_agent_error (stderr_log w)"
    and "api_calls w1 = api_calls w"
    and "process w1 = (case popen of Inl e \<Rightarrow> process w | Inr p \<Rightarrow> Some (snd (wait_ready p)))"
  using assms
  by (auto simp: start_def Let_def eprint_def is_agent_error_def
      split: sum.splits prod.splits if_splits)

lemma try_block_frame:
  assumes "try_block rt popen key create w = (r, w1)"
  shows "released w1 = released w"
    and "filter is_agent_error (stderr_log w1) = filter is_agent_error (stderr_log w)"
    and "api_calls w1 \<le> api_calls w + MAX_STEPS"
    and "\<not> has_key key \<Longrightarrow> api_calls w1 = api_calls w"
    and "(process w1 = None) = (case popen of Inl e \<Rightarrow> process w = None | Inr p \<Rightarrow> False)"
proof -
  obtain r0 w0 where s: "start popen w = (r0, w0)" by (cases "start popen w")
  note sf = start_frame [OF s]
  have s0: "same_frame w w0 \<or> (\<exists>p. popen = Inr p)"
    using sf by (cases popen) (simp_all add: same_frame_def)
  have p0: "(process w0 = None) = (case popen of Inl e \<Rightarrow> process w = None | Inr p \<Rightarrow> False)"
    using sf(4) by (cases popen) simp_all
  have main: "released w1 = released w
    \<and> filter is_agent_error (stderr_log w1) = filter is_agent_error (stderr_log w)
    \<and> api_calls w1 \<le> api_calls w + MAX_STEPS
    \<and> (\<not> has_key key \<longrightarrow> api_calls w1 = api_calls w)
    \<and> (process w1 = None) = (process w0 = None)"
  proof (cases r0)
    case (Inl e)
    with assms s sf show ?thesis by (simp add: try_block_def)
  next
    case (Inr u)
    show ?thesis
    proof (cases "has_key key")
      case True
      let ?w = "w0\<lparr>messages := [User user_prompt]\<rparr>"
      from assms s Inr True have "agent_loop rt create 0 ?w = (r, w1)"
        by (simp add: try_block_def)
      from agent_loop_frame [OF this] sf True show ?thesis
        by (simp add: same_frame_def)
    next
      case False
      let ?w = "print (lit ''User: List files in current directory.'')
                       (print (0x0A # lit ''[Simulated Agent Interaction]'') w0)"
      obtain r2 w2 where e: "exec rt (JStr (lit ''ls -F'')) ?w = (r2, w2)"
        by (cases "exec rt (JStr (lit ''ls -F'')) ?w")
      note ef = exec_frame [OF e]
      have "w1 = w2 \<or> (\<exists>l. w1 = print l w2)"
        using assms s Inr False e by (auto simp: try_block_def split: sum.splits)
      then show ?thesis using ef sf False
        by (auto simp: same_frame_def print_def)
    qed
  qed
  from main p0 show "released w1 = released w"
    and "filter is_agent_error (stderr_log w1) = filter is_agent_error (stderr_log w)"
    and "api_calls w1 \<le> api_calls w + MAX_STEPS"
    and "\<not> has_key key \<Longrightarrow> api_calls w1 = api_calls w"
    and "(process w1 = None) = (case popen of Inl e \<Rightarrow> process w = None | Inr p \<Rightarrow> False)"
    by simp_all
qed

lemma shutdown_exited_or_killed: "exited (shutdown p) \<or> killed (shutdown p)"
  by (simp add: shutdown_def kill_def split: sum.splits)

lemma stop_frame:
  "process (stop w) = None"
  "api_calls (stop w) = api_calls w"
  "stderr_log (stop w) = stderr_log w"
  "stdout_log (stop w) = stdout_log w"
  "messages (stop w) = messages w"
  "released (stop w) = released w @ (case process w of None \<Rightarrow> [] | Some p \<Rightarrow> [shutdown p])"
  by (simp_all add: stop_def split: option.splits)



lemma wait_ready_READY:
  assumes "child_stdout p = lit ''READY'' @ 0x0A # rest"
  shows "wait_ready p = (True, p\<lparr>child_stdout := rest\<rparr>)"
proof -
  have r: "readline p = (lit ''READY'' @ [0x0A], p\<lparr>child_stdout := rest\<rparr>)"
    by (rule readline_line) (simp_all add: assms lit_def)
  have s: "strip (lit ''READY'' @ [0x0A]) = lit ''READY''"
    by (simp add: strip_def isspace_def lit_def)
  show ?thesis
    by (subst wait_ready.simps) (simp add: r s)
qed


lemma start_ready:
  assumes "fst (wait_ready p)"
  shows "start (Inr p) w =
     (Inr (), w\<lparr>process := Some (snd (wait_ready p)),
                stderr_log := stderr_log w @ [Line (lit ''Booting VM...''), Line (lit ''VM Ready.'')]\<rparr>)"
  using assms by (cases "wait_ready p") (simp add: start_def Let_def eprint_def)

section \<open>The end of a run\<close>

text \<open>
  C8. However the \<^verbatim>\<open>try\<close> block ends, \<^verbatim>\<open>run_agent\<close> ends with \<^verbatim>\<open>stop\<close>: the
  client holds no process any more, the child that \<^verbatim>\<open>Popen\<close> gave (if it gave one) is
  the one released child, and it has exited or been killed. The error log has one
  \<^verbatim>\<open>Agent Error\<close> line, for the error that ended the \<^verbatim>\<open>try\<close> block, and none if
  the block ended without an error.
\<close>

theorem run_agent_stops:
  "process (run_agent rt popen key create) = None
   \<and> list_all (\<lambda>p. exited p \<or> killed p) (released (run_agent rt popen key create))
   \<and> length (released (run_agent rt popen key create)) = (case popen of Inl e \<Rightarrow> 0 | Inr p \<Rightarrow> 1)
   \<and> filter is_agent_error (stderr_log (run_agent rt popen key create))
       = (case fst (try_block rt popen key create world0) of
            Inl e \<Rightarrow> [AgentError e]
          | Inr u \<Rightarrow> [])"
proof -
  obtain r w where t: "try_block rt popen key create world0 = (r, w)"
    by (cases "try_block rt popen key create world0")
  note f = try_block_frame [OF t]
  have rel: "released w = []" and log: "filter is_agent_error (stderr_log w) = []"
    using f by (simp_all add: world0_def)
  have pr: "(process w = None) = (case popen of Inl e \<Rightarrow> True | Inr p \<Rightarrow> False)"
    using f(5) by (cases popen) (simp_all add: world0_def)
  define w' where "w' = (case r of Inl e \<Rightarrow> eprint (AgentError e) w | Inr u \<Rightarrow> w)"
  have ra: "run_agent rt popen key create = stop w'"
    using t by (cases r) (simp_all add: run_agent_def w'_def)
  have rel': "released w' = []" and pr': "process w' = process w"
    using rel by (cases r; simp add: w'_def eprint_def)+
  have log': "filter is_agent_error (stderr_log w')
                = (case r of Inl e \<Rightarrow> [AgentError e] | Inr u \<Rightarrow> [])"
    using log by (cases r) (simp_all add: w'_def eprint_def is_agent_error_def)
  have c1: "process (run_agent rt popen key create) = None"
    by (simp add: ra stop_frame)
  have c2: "list_all (\<lambda>p. exited p \<or> killed p) (released (run_agent rt popen key create))"
    by (simp add: ra stop_frame rel' shutdown_exited_or_killed split: option.splits)
  have c3: "length (released (run_agent rt popen key create))
              = (case popen of Inl e \<Rightarrow> 0 | Inr p \<Rightarrow> 1)"
  proof -
    have "length (released (stop w')) = (case process w of None \<Rightarrow> 0 | Some p \<Rightarrow> 1)"
      by (simp add: stop_frame rel' pr' split: option.splits)
    moreover have "(case process w of None \<Rightarrow> 0 | Some p \<Rightarrow> 1)
                     = (case popen of Inl e \<Rightarrow> 0 | Inr p \<Rightarrow> (1::nat))"
      using pr by (cases popen; cases "process w") simp_all
    ultimately show ?thesis by (simp add: ra)
  qed
  have c4: "filter is_agent_error (stderr_log (run_agent rt popen key create))
              = (case fst (try_block rt popen key create world0) of
                   Inl e \<Rightarrow> [AgentError e]
                 | Inr u \<Rightarrow> [])"
    by (simp add: ra stop_frame log' t)
  from c1 c2 c3 c4 show ?thesis by simp
qed

theorem run_agent_stops_witness:
  "process (run_agent rt0 (Inr (fresh_child (lit ''READY'' @ [0x0A]))) None
              (\<lambda>k ms. Inl (OtherError []))) = None
   \<and> list_all (\<lambda>p. exited p \<or> killed p)
        (released (run_agent rt0 (Inr (fresh_child (lit ''READY'' @ [0x0A]))) None
                    (\<lambda>k ms. Inl (OtherError []))))
   \<and> length (released (run_agent rt0 (Inr (fresh_child (lit ''READY'' @ [0x0A]))) None
                         (\<lambda>k ms. Inl (OtherError [])))) = 1
   \<and> filter is_agent_error
        (stderr_log (run_agent rt0 (Inr (fresh_child (lit ''READY'' @ [0x0A]))) None
                       (\<lambda>k ms. Inl (OtherError []))))
       = [AgentError (RuntimeError (lit ''VM closed connection''))]"
proof -
  let ?p = "fresh_child (lit ''READY'' @ [0x0A])"
  have w: "wait_ready ?p = (True, fresh_child [])"
    using wait_ready_READY [of ?p "[]"]
    by (simp add: fresh_child_def)
  have s: "start (Inr ?p) world0 =
     (Inr (), world0\<lparr>process := Some (fresh_child []),
                stderr_log := stderr_log world0 @ [Line (lit ''Booting VM...''), Line (lit ''VM Ready.'')]\<rparr>)"
    using start_ready [of ?p world0] by (simp add: w)
  have t: "fst (try_block rt0 (Inr ?p) None (\<lambda>k ms. Inl (OtherError [])) world0)
           = Inl (RuntimeError (lit ''VM closed connection''))"
    by (simp add: try_block_def s has_key_def)
      (simp add: exec_def print_def world0_def write_flush_def readline_def fresh_child_def)
  show ?thesis
    using run_agent_stops [of rt0 "Inr ?p" None "\<lambda>k ms. Inl (OtherError [])"]
    by (simp add: t)
qed

section \<open>A run without an API key\<close>



section \<open>The step budget\<close>







section \<open>The request line\<close>

lemma hexval_hexdigit: "d < 16 \<Longrightarrow> hexval (hexdigit d) = Some d"
  by (auto simp: hexval_def hexdigit_def)

lemma hex_digits_value:
  fixes n :: nat
  assumes "n < 65536"
  shows "((n div 4096 mod 16 * 16 + n div 256 mod 16) * 16 + n div 16 mod 16) * 16 + n mod 16 = n"
proof -
  define a where "a = n div 16"
  define b where "b = a div 16"
  define c where "c = b div 16"
  have b: "n div 256 = b"
    using div_mult2_eq [of n 16 16] by (simp add: a_def b_def)
  have c: "n div 4096 = c"
    using div_mult2_eq [of n 256 16] by (simp add: b c_def)
  have c16: "c < 16"
    using assms c by (simp add: less_mult_imp_div_less)
  have n: "n = 16 * a + n mod 16" by (simp add: a_def)
  have a: "a = 16 * b + a mod 16" by (simp add: b_def)
  have b': "b = 16 * c + b mod 16" by (simp add: c_def)
  have "((c mod 16 * 16 + b mod 16) * 16 + a mod 16) * 16 + n mod 16 = n"
    using c16 n a b' by simp
  then show ?thesis by (simp add: b c a_def)
qed

lemma decode_hex4:
  assumes "n < 65536"
  shows "decode_uXXXX (hexdigit (n div 4096 mod 16) # hexdigit (n div 256 mod 16)
           # hexdigit (n div 16 mod 16) # hexdigit (n mod 16) # t) = Some n"
proof -
  have "decode_uXXXX (hexdigit (n div 4096 mod 16) # hexdigit (n div 256 mod 16)
           # hexdigit (n div 16 mod 16) # hexdigit (n mod 16) # t)
        = Some (((n div 4096 mod 16 * 16 + n div 256 mod 16) * 16 + n div 16 mod 16) * 16
                + n mod 16)"
    by (simp add: decode_uXXXX_def hexval_hexdigit)
  then show ?thesis
    by (simp only: hex_digits_value [OF assms])
qed


lemma scanstring_u_escape:
  assumes "n < 65536"
    and "is_high n \<Longrightarrow> take 2 t = [0x5C, 0x75] \<Longrightarrow>
           \<exists>u. decode_uXXXX (drop 2 t) = Some u \<and> \<not> is_low u"
  shows "scanstring (u_escape n @ t) = cons_char n (scanstring t)"
proof (cases "is_high n \<and> take 2 t = [0x5C, 0x75]")
  case False
  then show ?thesis
    by (auto simp: u_escape_def decode_hex4 [OF assms(1)] is_high_def)
next
  case True
  with assms(2) obtain u where "decode_uXXXX (drop 2 t) = Some u" and "\<not> is_low u"
    by blast
  with True show ?thesis
    by (auto simp: u_escape_def decode_hex4 [OF assms(1)] is_high_def is_low_def)
qed


lemma decode_u_escape:
  assumes "n < 65536"
  shows "decode_uXXXX (drop 2 (u_escape n) @ t) = Some n"
  using decode_hex4 [OF assms] by (simp add: u_escape_def)

lemma scanstring_u_unfold:
  "scanstring (u_escape n @ r) =
     (case decode_uXXXX (drop 2 (u_escape n) @ r) of
        None \<Rightarrow> Inl JSONDecodeError
      | Some uni \<Rightarrow>
          if 0xD800 \<le> uni \<and> uni \<le> 0xDBFF \<and> take 2 r = [0x5C, 0x75] then
            (case decode_uXXXX (drop 2 r) of
               None \<Rightarrow> Inl JSONDecodeError
             | Some uni2 \<Rightarrow>
                 if 0xDC00 \<le> uni2 \<and> uni2 \<le> 0xDFFF then
                   cons_char (0x10000 + ((uni - 0xD800) * 1024 + (uni2 - 0xDC00)))
                     (scanstring (drop 6 r))
                 else cons_char uni (scanstring r))
          else cons_char uni (scanstring r))"
  by (simp add: u_escape_def split: option.split)

lemma scanstring_surrogates:
  assumes hi: "0xD800 \<le> hi" "hi \<le> 0xDBFF" and lo: "0xDC00 \<le> lo" "lo \<le> 0xDFFF"
  shows "scanstring (u_escape hi @ u_escape lo @ t)
           = cons_char (0x10000 + ((hi - 0xD800) * 1024 + (lo - 0xDC00))) (scanstring t)"
proof -
  have h: "hi < 65536" and l: "lo < 65536"
    using hi lo by simp_all
  define r where "r = u_escape lo @ t"
  have t2: "take 2 r = [0x5C, 0x75]"
    and d2: "drop 2 r = drop 2 (u_escape lo) @ t"
    and d6: "drop 6 r = t"
    by (simp_all add: r_def u_escape_def)
  have "scanstring (u_escape hi @ r)
          = cons_char (0x10000 + ((hi - 0xD800) * 1024 + (lo - 0xDC00))) (scanstring t)"
    by (subst scanstring_u_unfold)
      (simp add: decode_u_escape [OF h] decode_u_escape [OF l] t2 d2 d6 hi lo)
  then show ?thesis
    by (simp only: r_def)
qed

lemma astral_split:
  fixes c :: nat
  assumes "0x10000 \<le> c" and "c < 0x110000"
  shows "0x10000 + ((0xD800 + (c - 0x10000) div 1024 mod 1024 - 0xD800) * 1024
                    + (0xDC00 + (c - 0x10000) mod 1024 - 0xDC00)) = c"
    and "0xD800 + (c - 0x10000) div 1024 mod 1024 \<le> 0xDBFF"
    and "0xDC00 + (c - 0x10000) mod 1024 \<le> 0xDFFF"
proof -
  define x where "x = c - 0x10000"
  have x: "x < 1024 * 1024" and c: "c = 0x10000 + x"
    using assms by (simp_all add: x_def)
  have q: "x div 1024 < 1024"
    using x by (simp add: less_mult_imp_div_less)
  have m: "x div 1024 mod 1024 = x div 1024"
    using q by simp
  have r: "x mod 1024 < 1024"
    by simp
  have e: "x div 1024 * 1024 + x mod 1024 = x"
    by simp
  show "0x10000 + ((0xD800 + (c - 0x10000) div 1024 mod 1024 - 0xD800) * 1024
                    + (0xDC00 + (c - 0x10000) mod 1024 - 0xDC00)) = c"
    using e by (simp add: x_def [symmetric] m c)
  show "0xD800 + (c - 0x10000) div 1024 mod 1024 \<le> 0xDBFF"
    using q by (simp add: x_def [symmetric] m)
  show "0xDC00 + (c - 0x10000) mod 1024 \<le> 0xDFFF"
    using r by (simp add: x_def [symmetric])
qed

lemma scanstring_escape_char:
  assumes "c < 0x110000"
    and "is_high c \<Longrightarrow> take 2 t = [0x5C, 0x75] \<Longrightarrow>
           \<exists>u. decode_uXXXX (drop 2 t) = Some u \<and> \<not> is_low u"
  shows "scanstring (escape_char c @ t) = cons_char c (scanstring t)"
proof -
  consider (short) "c = 0x5C \<or> c = 0x22 \<or> c = 0x08 \<or> c = 0x0C \<or> c = 0x0A \<or> c = 0x0D \<or> c = 0x09"
    | (plain) "0x20 \<le> c" "c \<le> 0x7E" "c \<noteq> 0x5C" "c \<noteq> 0x22"
    | (bmp) "c < 0x10000" "\<not> (0x20 \<le> c \<and> c \<le> 0x7E)"
        "c \<noteq> 0x08" "c \<noteq> 0x0C" "c \<noteq> 0x0A" "c \<noteq> 0x0D" "c \<noteq> 0x09"
    | (astral) "0x10000 \<le> c"
    by fastforce
  then show ?thesis
  proof cases
    case short
    then show ?thesis
      by (auto simp: escape_char_def BACKSLASH_def)
  next
    case plain
    then show ?thesis
      by (simp add: escape_char_def)
  next
    case bmp
    then have "escape_char c = u_escape c"
      by (auto simp: escape_char_def)
    then show ?thesis
      using scanstring_u_escape [OF bmp(1) assms(2)] by simp
  next
    case astral
    then have e: "escape_char c = u_escape (0xD800 + (c - 0x10000) div 1024 mod 1024)
                     @ u_escape (0xDC00 + (c - 0x10000) mod 1024)"
      by (simp add: escape_char_def)
    note s = astral_split [OF astral assms(1)]
    have "scanstring (escape_char c @ t)
            = cons_char (0x10000 + ((0xD800 + (c - 0x10000) div 1024 mod 1024 - 0xD800) * 1024
                    + (0xDC00 + (c - 0x10000) mod 1024 - 0xDC00))) (scanstring t)"
      unfolding e append_assoc
      by (rule scanstring_surrogates) (use s(2) s(3) in simp_all)
    then show ?thesis
      by (simp only: s(1))
  qed
qed

lemma escape_char_shape:
  assumes "d < 0x10000"
  shows "escape_char d = u_escape d
         \<or> (\<exists>y. escape_char d = [0x5C, y] \<and> y \<noteq> 0x75)
         \<or> (escape_char d = [d] \<and> d \<noteq> 0x5C)"
  using assms by (simp add: escape_char_def)

lemma escape_char_next:
  assumes "d < 0x110000" and "take 2 (escape_char d @ t) = [0x5C, 0x75]"
  shows "\<exists>u. decode_uXXXX (drop 2 (escape_char d @ t)) = Some u \<and> (u = d \<or> is_high u)"
proof (cases "d < 0x10000")
  case True
  from escape_char_shape [OF True] assms(2)
  have bmp: "escape_char d = u_escape d"
    by auto
  have "drop 2 (escape_char d @ t) = drop 2 (u_escape d) @ t"
    by (simp add: bmp u_escape_def)
  then show ?thesis
    using decode_u_escape [OF True, of t] by simp
next
  case False
  then have astral: "0x10000 \<le> d"
    by simp
  define hi where "hi = 0xD800 + (d - 0x10000) div 1024 mod 1024"
  define r where "r = u_escape (0xDC00 + (d - 0x10000) mod 1024) @ t"
  have e: "escape_char d @ t = u_escape hi @ r"
    using astral by (simp add: escape_char_def hi_def r_def)
  have h: "hi \<le> 0xDBFF" "0xD800 \<le> hi"
    using astral_split(2) [OF astral assms(1)] by (simp_all add: hi_def)
  then have "hi < 65536"
    by simp
  then have "decode_uXXXX (drop 2 (u_escape hi) @ r) = Some hi"
    by (rule decode_u_escape)
  moreover have "drop 2 (u_escape hi @ r) = drop 2 (u_escape hi) @ r"
    by (simp add: u_escape_def)
  ultimately show ?thesis
    using h by (simp add: e is_high_def)
qed

lemma scanstring_encoded:
  "valid_str s \<Longrightarrow> no_surrogate_pair s \<Longrightarrow>
     scanstring (concat (map escape_char s) @ 0x22 # rest) = Inr (s, rest)"
proof (induction s rule: no_surrogate_pair.induct)
  case 1
  show ?case by simp
next
  case (2 c)
  then have c: "c < 0x110000"
    by (simp add: valid_str_def)
  have "scanstring (escape_char c @ 0x22 # rest) = cons_char c (scanstring (0x22 # rest))"
    by (rule scanstring_escape_char [OF c]) simp
  then show ?case
    by (simp add: cons_char_def)
next
  case (3 c d r)
  then have c: "c < 0x110000" and d: "d < 0x110000" and v: "valid_str (d # r)"
    and np: "\<not> (is_high c \<and> is_low d)" and n: "no_surrogate_pair (d # r)"
    by (simp_all add: valid_str_def)
  define t where "t = concat (map escape_char r) @ 0x22 # rest"
  have ih: "scanstring (escape_char d @ t) = Inr (d # r, rest)"
    using "3.IH" [OF v n] by (simp add: t_def)
  have "scanstring (escape_char c @ escape_char d @ t)
          = cons_char c (scanstring (escape_char d @ t))"
  proof (rule scanstring_escape_char [OF c])
    assume hc: "is_high c" and "take 2 (escape_char d @ t) = [0x5C, 0x75]"
    from escape_char_next [OF d this(2)]
    obtain u where u: "decode_uXXXX (drop 2 (escape_char d @ t)) = Some u"
      and "u = d \<or> is_high u"
      by blast
    then have "\<not> is_low u"
      using hc np by (auto simp: is_high_def is_low_def)
    with u show "\<exists>u. decode_uXXXX (drop 2 (escape_char d @ t)) = Some u \<and> \<not> is_low u"
      by blast
  qed
  with ih have "scanstring (escape_char c @ escape_char d @ t) = Inr (c # d # r, rest)"
    by (simp add: cons_char_def)
  then show ?case
    by (simp add: t_def)
qed

lemma hexdigit_not_newline: "hexdigit d \<noteq> 0x0A"
  by (simp add: hexdigit_def)

lemma u_escape_no_newline: "0x0A \<notin> set (u_escape n)"
  by (simp add: u_escape_def hexdigit_not_newline)

lemma escape_char_no_newline: "0x0A \<notin> set (escape_char c)"
  by (simp add: escape_char_def u_escape_no_newline)

lemma encode_no_newline: "0x0A \<notin> set (encode_basestring_ascii s)"
  by (simp add: encode_basestring_ascii_def escape_char_no_newline)

lemma exec_request_text:
  \<open>exec_request rt (JStr command) =
     lit ''{"cmd": "exec", "command": "'' @ concat (map escape_char command)
     @ [0x22, 0x7D, 0x0A]\<close>
  by (simp add: exec_request_def lit_def encode_basestring_ascii_def escape_char_def)


lemma fuel4: "4 \<le> n \<Longrightarrow> \<exists>k. n = Suc (Suc (Suc (Suc k)))"
  by (rule exI [of _ "n - 4"]) simp


lemma scan_once_request:
  assumes "4 \<le> n" and "valid_str command" and "no_surrogate_pair command"
  shows \<open>scan_once n
           (lit ''{"cmd": "exec", "command": "'' @ concat (map escape_char command)
            @ [0x22, 0x7D, 0x0A])
         = Inr (JObj [(lit ''cmd'', JStr (lit ''exec'')), (lit ''command'', JStr command)],
                [0x0A])\<close>
proof -
  from fuel4 [OF assms(1)] obtain k where n: "n = Suc (Suc (Suc (Suc k)))"
    by blast
  note enc = scanstring_encoded [OF assms(2) assms(3)]
  show ?thesis
    unfolding n
    by (simp add: lit_def skip_ws_def is_ws_def cons_char_def enc)
qed

lemma json_loads_request:
  assumes "valid_str command" and "no_surrogate_pair command"
  shows "json_loads (exec_request rt (JStr command))
           = Inr (JObj [(lit ''cmd'', JStr (lit ''exec'')), (lit ''command'', JStr command)])"
proof -
  let ?s = \<open>lit ''{"cmd": "exec", "command": "'' @ concat (map escape_char command)
            @ [0x22, 0x7D, 0x0A]\<close>
  have f: "4 \<le> 2 * length ?s + 2"
    by (simp add: lit_def)
  have w: "skip_ws ?s = ?s" and b: "take 1 ?s \<noteq> [0xFEFF]"
    by (simp_all add: lit_def skip_ws_def is_ws_def)
  show ?thesis
    unfolding exec_request_text json_loads_def
    by (simp only: w scan_once_request [OF f assms] b if_False sum.case prod.case)
      (simp add: skip_ws_def is_ws_def)
qed

lemma exec_request_one_newline:
  "\<exists>body. exec_request rt (JStr command) = body @ [0x0A] \<and> 0x0A \<notin> set body"
proof -
  have "0x0A \<notin> set (json_dumps rt (JObj [(lit ''cmd'', JStr (lit ''exec'')),
                                           (lit ''command'', JStr command)]))"
    by (simp add: encode_no_newline) (simp add: lit_def)
  then show ?thesis
    by (auto simp: exec_request_def)
qed

text \<open>
  C4, as the code has it. For every command string in which no high surrogate is
  directly followed by a low surrogate (every string of Unicode scalar values is one),
  \<^verbatim>\<open>json.loads\<close> of the request line is the object with \<^verbatim>\<open>cmd\<close> equal to
  \<^verbatim>\<open>"exec"\<close> and \<^verbatim>\<open>command\<close> equal to the string. For every command string the
  request line ends in a newline and holds no other newline, and it is the text that
  \<^verbatim>\<open>exec\<close> writes to the child.
\<close>

theorem request_line_framing:
  "(valid_str command \<and> no_surrogate_pair command \<longrightarrow>
      json_loads (exec_request rt (JStr command))
        = Inr (JObj [(lit ''cmd'', JStr (lit ''exec'')), (lit ''command'', JStr command)]))
   \<and> (\<exists>body. exec_request rt (JStr command) = body @ [0x0A] \<and> 0x0A \<notin> set body)
   \<and> (process w = Some p \<and> accepts p \<noteq> 0 \<longrightarrow>
        sent (snd (exec rt (JStr command) w)) = sent w @ [exec_request rt (JStr command)])"
proof -
  have a: "json_loads (exec_request rt (JStr command))
        = Inr (JObj [(lit ''cmd'', JStr (lit ''exec'')), (lit ''command'', JStr command)])"
    if "valid_str command" and "no_surrogate_pair command"
    using that by (rule json_loads_request)
  have b: "\<exists>body. exec_request rt (JStr command) = body @ [0x0A] \<and> 0x0A \<notin> set body"
    by (rule exec_request_one_newline)
  have c: "sent (snd (exec rt (JStr command) w)) = sent w @ [exec_request rt (JStr command)]"
    if "process w = Some p" and "accepts p \<noteq> 0"
    using that by (simp add: exec_world sent_def after_exec_frame)
  from a b c show ?thesis by blast
qed

theorem request_line_framing_witness:
  "json_loads (exec_request rt0 (JStr [0x6C, 0x73, 0x0A, 0x22, 0x5C, 0xE9, 0x1F600]))
     = Inr (JObj [(lit ''cmd'', JStr (lit ''exec'')),
                  (lit ''command'', JStr [0x6C, 0x73, 0x0A, 0x22, 0x5C, 0xE9, 0x1F600])])
   \<and> sent (snd (exec rt0 (JStr [0x6C, 0x73, 0x0A, 0x22, 0x5C, 0xE9, 0x1F600])
                  (world0\<lparr>process := Some (fresh_child [])\<rparr>)))
       = [exec_request rt0 (JStr [0x6C, 0x73, 0x0A, 0x22, 0x5C, 0xE9, 0x1F600])]"
proof -
  have v: "valid_str [0x6C, 0x73, 0x0A, 0x22, 0x5C, 0xE9, 0x1F600]"
    by (simp add: valid_str_def)
  have n: "no_surrogate_pair [0x6C, 0x73, 0x0A, 0x22, 0x5C, 0xE9, 0x1F600]"
    by (simp add: is_high_def)
  have p: "process (world0\<lparr>process := Some (fresh_child [])\<rparr>) = Some (fresh_child [])"
    "accepts (fresh_child []) \<noteq> 0" "sent (world0\<lparr>process := Some (fresh_child [])\<rparr>) = []"
    by (simp_all add: fresh_child_def sent_def world0_def)
  show ?thesis
    using request_line_framing [of "[0x6C, 0x73, 0x0A, 0x22, 0x5C, 0xE9, 0x1F600]" rt0
        "world0\<lparr>process := Some (fresh_child [])\<rparr>" "fresh_child []"] v n p
    by simp
qed

text \<open>
  C4, as the claim has it, fails for a command of two code points, a high surrogate and
  a low surrogate: the encoder writes two \<^verbatim>\<open>\uXXXX\<close> escapes, and the decoder reads
  them as the one code point \<open>0x1F600\<close>.
\<close>

theorem request_line_counterexample:
  \<open>valid_str [0xD83D, 0xDE00]
   \<and> exec_request rt0 (JStr [0xD83D, 0xDE00])
       = lit ''{"cmd": "exec", "command": "'' @ [0x5C] @ lit ''ud83d'' @ [0x5C]
         @ lit ''ude00"}'' @ [0x0A]
   \<and> json_loads (exec_request rt0 (JStr [0xD83D, 0xDE00]))
       = Inr (JObj [(lit ''cmd'', JStr (lit ''exec'')), (lit ''command'', JStr [0x1F600])])
   \<and> JStr [0x1F600] \<noteq> JStr [0xD83D, 0xDE00]\<close>
proof -
  have t: "exec_request rt0 (JStr [0xD83D, 0xDE00])
             = [0x7B, 0x22, 0x63, 0x6D, 0x64, 0x22, 0x3A, 0x20, 0x22, 0x65, 0x78, 0x65, 0x63,
                0x22, 0x2C, 0x20, 0x22, 0x63, 0x6F, 0x6D, 0x6D, 0x61, 0x6E, 0x64, 0x22, 0x3A,
                0x20, 0x22, 0x5C, 0x75, 0x64, 0x38, 0x33, 0x64, 0x5C, 0x75, 0x64, 0x65, 0x30,
                0x30, 0x22, 0x7D, 0x0A]"
    by (simp add: exec_request_text lit_def escape_char_def u_escape_def hexdigit_def)
  show ?thesis
    unfolding t by (simp add: valid_str_def json_eval)
qed

end
